theory Spec2Isabelle
  imports Main "HOL-Library.FSet" "HOL-Library.Sublist"
begin

section \<open>Python strings, numbers and regular expressions used by rename.py\<close>

text \<open>
  A Python \<open>str\<close> is modelled as a \<open>string\<close> whose characters are the code points
  below 256. The character classes below are the ones Python's \<open>re\<close> module and
  \<open>str.strip\<close> use on that range: \<open>\d\<close> is \<open>0-9\<close>, \<open>\s\<close> is the
  set of \<open>str.isspace\<close>, \<open>\w\<close> is \<open>str.isalnum\<close> plus the underscore.
\<close>

definition is_digit :: "char \<Rightarrow> bool" where
  "is_digit c \<longleftrightarrow> 48 \<le> (of_char c :: nat) \<and> (of_char c :: nat) \<le> 57"

definition is_upper :: "char \<Rightarrow> bool" where
  "is_upper c \<longleftrightarrow> 65 \<le> (of_char c :: nat) \<and> (of_char c :: nat) \<le> 90"

definition is_lower :: "char \<Rightarrow> bool" where
  "is_lower c \<longleftrightarrow> 97 \<le> (of_char c :: nat) \<and> (of_char c :: nat) \<le> 122"

text \<open>The class \<open>[A-Za-z0-9]\<close>.\<close>

definition is_alnum :: "char \<Rightarrow> bool" where
  "is_alnum c \<longleftrightarrow> is_upper c \<or> is_lower c \<or> is_digit c"

text \<open>The class \<open>\s\<close>, which is also what \<open>str.strip()\<close> removes.\<close>

definition is_space :: "char \<Rightarrow> bool" where
  "is_space c \<longleftrightarrow>
     (9 \<le> (of_char c :: nat) \<and> (of_char c :: nat) \<le> 13) \<or>
     (28 \<le> (of_char c :: nat) \<and> (of_char c :: nat) \<le> 32) \<or>
     (of_char c :: nat) = 133 \<or> (of_char c :: nat) = 160"

text \<open>The class \<open>\w\<close>, which decides where \<open>\b\<close> holds.\<close>

definition is_word :: "char \<Rightarrow> bool" where
  "is_word c \<longleftrightarrow>
     is_alnum c \<or> (of_char c :: nat) = 95 \<or>
     (of_char c :: nat) \<in> {170, 178, 179, 181, 185, 186, 188, 189, 190} \<or>
     (192 \<le> (of_char c :: nat) \<and> (of_char c :: nat) \<le> 214) \<or>
     (216 \<le> (of_char c :: nat) \<and> (of_char c :: nat) \<le> 246) \<or>
     (248 \<le> (of_char c :: nat) \<and> (of_char c :: nat) \<le> 255)"

text \<open>\<open>str.lower()\<close> on the ASCII letters (the only letters a resolution tag holds).\<close>

definition py_lower_char :: "char \<Rightarrow> char" where
  "py_lower_char c = (if is_upper c then char_of ((of_char c :: nat) + 32) else c)"

definition py_lower :: "string \<Rightarrow> string" where
  "py_lower s = map py_lower_char s"

text \<open>\<open>str.strip()\<close> and \<open>str.strip('.')\<close>.\<close>

definition strip_chars :: "(char \<Rightarrow> bool) \<Rightarrow> string \<Rightarrow> string" where
  "strip_chars p s = rev (dropWhile p (rev (dropWhile p s)))"

definition py_strip :: "string \<Rightarrow> string" where
  "py_strip s = strip_chars is_space s"

definition strip_dots :: "string \<Rightarrow> string" where
  "strip_dots s = strip_chars (\<lambda>c. c = CHR ''.'') s"

subsection \<open>Decimal numbers: \<open>str(n)\<close>, \<open>int(s)\<close> and the format \<open>{n:0wd}\<close>\<close>

definition digit_char :: "nat \<Rightarrow> char" where
  "digit_char d = char_of (48 + d)"

definition digit_val :: "char \<Rightarrow> nat" where
  "digit_val c = (of_char c :: nat) - 48"

function str_nat :: "nat \<Rightarrow> string" where
  "str_nat n = (if n < 10 then [digit_char n] else str_nat (n div 10) @ [digit_char (n mod 10)])"
  by pat_completeness auto
termination
  by (relation "measure (\<lambda>n. n)") auto

declare str_nat.simps [simp del]

text \<open>\<open>str(n)\<close> for a Python int.\<close>

definition py_str :: "int \<Rightarrow> string" where
  "py_str n = (if n < 0 then CHR ''-'' # str_nat (nat (- n)) else str_nat (nat n))"

definition zero_pad :: "nat \<Rightarrow> string \<Rightarrow> string" where
  "zero_pad w s = replicate (w - length s) CHR ''0'' @ s"

text \<open>The format specification \<open>{n:0wd}\<close>: the sign comes before the zeros and counts
  in the width.\<close>

definition fmt_d :: "nat \<Rightarrow> int \<Rightarrow> string" where
  "fmt_d w n = (if n < 0 then CHR ''-'' # zero_pad (w - 1) (str_nat (nat (- n)))
                else zero_pad w (str_nat (nat n)))"

definition dec_val :: "string \<Rightarrow> nat" where
  "dec_val s = foldl (\<lambda>a c. 10 * a + digit_val c) 0 s"

text \<open>\<open>int(s)\<close> on the text of a \<open>\d+\<close> match; \<open>None\<close> is the \<open>ValueError\<close>.\<close>

definition py_int :: "string \<Rightarrow> int option" where
  "py_int s = (if s \<noteq> [] \<and> list_all is_digit s then Some (int (dec_val s)) else None)"

subsection \<open>The regular expressions\<close>

text \<open>
  \<open>re.findall(r'\b\d+\b', s)\<close>: a match starts and ends at a word boundary and holds
  digits only, and a digit is a word character, so the matches are, from left to right,
  the maximal runs of word characters that consist of digits.
\<close>

fun word_runs :: "string \<Rightarrow> string \<Rightarrow> string list" where
  "word_runs acc [] = (if acc = [] then [] else [acc])"
| "word_runs acc (c # cs) =
     (if is_word c then word_runs (acc @ [c]) cs
      else (if acc = [] then [] else [acc]) @ word_runs [] cs)"

definition findall_numbers :: "string \<Rightarrow> string list" where
  "findall_numbers s = filter (list_all is_digit) (word_runs [] s)"

text \<open>\<open>re.sub(r'[^A-Za-z0-9\s]', '', s)\<close>.\<close>

definition remove_special :: "string \<Rightarrow> string" where
  "remove_special s = filter (\<lambda>c. is_alnum c \<or> is_space c) s"

text \<open>\<open>re.sub(r'\s+', '.', s)\<close>: every maximal run of whitespace becomes one dot.\<close>

function collapse_ws :: "string \<Rightarrow> string" where
  "collapse_ws [] = []"
| "collapse_ws (c # cs) =
     (if is_space c then CHR ''.'' # collapse_ws (dropWhile is_space cs)
      else c # collapse_ws cs)"
  by pat_completeness auto
termination
  by (relation "measure length") (auto simp: length_dropWhile_le less_Suc_eq_le)

text \<open>
  \<open>res_regex = re.compile(r"(\d{3,4}p|[24]k)", re.IGNORECASE)\<close>, first anchored at
  the head of a string: the greedy \<open>\d{3,4}\<close> tries four digits before three, and the
  second alternative is tried last.
\<close>

definition is_p :: "char \<Rightarrow> bool" where
  "is_p c \<longleftrightarrow> c = CHR ''p'' \<or> c = CHR ''P''"

definition is_k :: "char \<Rightarrow> bool" where
  "is_k c \<longleftrightarrow> c = CHR ''k'' \<or> c = CHR ''K''"

definition match_res :: "string \<Rightarrow> string option" where
  "match_res s =
     (if 5 \<le> length s \<and> list_all is_digit (take 4 s) \<and> is_p (s ! 4) then Some (take 5 s)
      else if 4 \<le> length s \<and> list_all is_digit (take 3 s) \<and> is_p (s ! 3) then Some (take 4 s)
      else if 2 \<le> length s \<and> (s ! 0 = CHR ''2'' \<or> s ! 0 = CHR ''4'') \<and> is_k (s ! 1)
        then Some (take 2 s)
      else None)"

text \<open>A text that the pattern matches as a whole.\<close>

definition is_res_tag :: "string \<Rightarrow> bool" where
  "is_res_tag m \<longleftrightarrow> match_res m = Some m"

text \<open>\<open>res_regex.search(filename)\<close>: the leftmost match, \<open>group(1)\<close> of it.\<close>

fun res_search :: "string \<Rightarrow> string option" where
  "res_search [] = None"
| "res_search (c # cs) =
     (case match_res (c # cs) of Some m \<Rightarrow> Some m | None \<Rightarrow> res_search cs)"

text \<open>The positions of a string at which a text that the pattern matches starts.\<close>

definition match_positions :: "string \<Rightarrow> nat list" where
  "match_positions s = filter (\<lambda>i. match_res (drop i s) \<noteq> None) [0..<length s]"

text \<open>
  \<open>Path.suffix\<close> is pathlib's; the engine takes it as a collaborator. This is CPython
  3.11's: the text from the last dot of the name on, unless that dot is the first or the
  last character.
\<close>

definition pathlib_suffix :: "string \<Rightarrow> string" where
  "pathlib_suffix nm =
     (let ext = rev (takeWhile (\<lambda>c. c \<noteq> CHR ''.'') (rev nm))
      in if CHR ''.'' \<in> set nm \<and> ext \<noteq> [] \<and> length ext + 1 < length nm
         then CHR ''.'' # ext else [])"

section \<open>The inference collaborator's answer\<close>

text \<open>
  What \<open>subprocess.run\<close> gives \<open>ask_ollama_for_anime_mapping\<close>: a completed process
  with its return code and standard output, the timeout, or any other exception.
\<close>

datatype run_outcome = Completed int string | TimeoutExpired | RunError

definition ask_ollama_for_anime_mapping :: "run_outcome \<Rightarrow> int option" where
  "ask_ollama_for_anime_mapping r =
     (case r of
        TimeoutExpired \<Rightarrow> None
      | RunError \<Rightarrow> None
      | Completed returncode stdout \<Rightarrow>
          if returncode \<noteq> 0 then None
          else
            let response = py_strip stdout in
            if response = ''UNKNOWN'' then None
            else
              let numbers = findall_numbers response in
              if numbers \<noteq> [] then
                (case py_int (last numbers) of
                   Some continuous_ep \<Rightarrow>
                     if 1 \<le> continuous_ep \<and> continuous_ep \<le> 200 then Some continuous_ep
                     else None
                 | None \<Rightarrow> None)
              else None)"

section \<open>Episode numbers\<close>

text \<open>Python's truth value of an \<open>Optional[str]\<close>: \<open>None\<close> and \<open>""\<close> are false.\<close>

definition truthy_str :: "string option \<Rightarrow> bool" where
  "truthy_str v = (case v of None \<Rightarrow> False | Some t \<Rightarrow> t \<noteq> [])"

text \<open>The fallback of \<open>rename_show_files\<close>: twelve episodes per season.\<close>

definition fallback_episode :: "int \<Rightarrow> int \<Rightarrow> int" where
  "fallback_episode detected_season detected_episode =
     (let continuous_ep = detected_episode
      in if detected_season > 1 then continuous_ep + (detected_season - 1) * 12
         else continuous_ep)"

text \<open>
  The branch \<open>if is_anime: ... else: ...\<close> of \<open>rename_show_files\<close>: the pair
  \<open>(final_season, final_episode)\<close> before any title is looked up. The inference
  collaborator is asked for anime only; \<open>if continuous_ep:\<close> is false for \<open>None\<close>
  and for \<open>0\<close>.
\<close>

definition resolve_episode :: "bool \<Rightarrow> run_outcome \<Rightarrow> int \<Rightarrow> int \<Rightarrow> int \<times> int" where
  "resolve_episode is_anime run detected_season detected_episode =
     (if is_anime then
        (case ask_ollama_for_anime_mapping run of
           Some continuous_ep \<Rightarrow>
             if continuous_ep \<noteq> 0 then (1, continuous_ep)
             else (1, fallback_episode detected_season detected_episode)
         | None \<Rightarrow> (1, fallback_episode detected_season detected_episode))
      else (detected_season, detected_episode))"

text \<open>
  The title lookups of \<open>rename_show_files\<close>: the title found (if any), the final pair,
  and the pairs that were looked up, in order. \<open>titles\<close> is \<open>get_episode_title\<close> for
  the show.
\<close>

definition lookup_title ::
  "(int \<Rightarrow> int \<Rightarrow> string option) \<Rightarrow> bool \<Rightarrow> int \<times> int \<Rightarrow> int \<times> int
     \<Rightarrow> string option \<times> (int \<times> int) \<times> (int \<times> int) list" where
  "lookup_title titles is_anime detected_pair final_pair =
     (let (detected_season, detected_episode) = detected_pair;
          (final_season, final_episode) = final_pair;
          title = titles final_season final_episode
      in if \<not> truthy_str title \<and> is_anime \<and> final_season = 1 then
           (let title = titles detected_season detected_episode;
                looked_up = [(final_season, final_episode), (detected_season, detected_episode)]
            in if truthy_str title then (title, (detected_season, detected_episode), looked_up)
               else (title, (detected_season, detected_episode), looked_up))
         else (title, (final_season, final_episode), [(final_season, final_episode)]))"

section \<open>File names\<close>

text \<open>The two sanitisers of \<open>rename_show_files\<close>; only the title is stripped of
  leading and trailing dots and cut to 50 characters.\<close>

definition clean_show_name :: "string \<Rightarrow> string" where
  "clean_show_name show_name = collapse_ws (remove_special show_name)"

definition safe_title :: "string \<Rightarrow> string" where
  "safe_title title = take 50 (strip_dots (collapse_ws (remove_special title)))"

text \<open>
  The title sanitiser in the words of the specification: the title is sanitised like the
  show name (characters outside alphanumerics and whitespace removed, whitespace runs
  collapsed to a single dot) and truncated to 50 characters. It is compared with
  \<open>safe_title\<close>, the one of the source.
\<close>

definition spec_safe_title :: "string \<Rightarrow> string" where
  "spec_safe_title title = take 50 (collapse_ws (remove_special title))"

definition resolution :: "string \<Rightarrow> string" where
  "resolution filename =
     (case res_search filename of Some m \<Rightarrow> py_lower m | None \<Rightarrow> [])"

text \<open>What a file name is built from.\<close>

record name_parts =
  np_show :: string
  np_season :: int
  np_episode :: int
  np_title :: string
  np_resolution :: string
  np_suffix :: string

text \<open>\<open>S{final_season:02d}EP{final_episode:03d}\<close>.\<close>

definition episode_code :: "int \<Rightarrow> int \<Rightarrow> string" where
  "episode_code final_season final_episode =
     ''S'' @ fmt_d 2 final_season @ ''EP'' @ fmt_d 3 final_episode"

text \<open>The condition \<open>safe_title and safe_title != str(final_episode)\<close>.\<close>

definition has_title :: "name_parts \<Rightarrow> bool" where
  "has_title p \<longleftrightarrow> np_title p \<noteq> [] \<and> np_title p \<noteq> py_str (np_episode p)"

text \<open>The four f-strings before the collision loop.\<close>

definition first_name :: "name_parts \<Rightarrow> string" where
  "first_name p =
     (if has_title p then
        (if np_resolution p \<noteq> [] then
           np_show p @ ''.'' @ episode_code (np_season p) (np_episode p) @ ''.'' @ np_title p
             @ ''.'' @ np_resolution p @ np_suffix p
         else
           np_show p @ ''.'' @ episode_code (np_season p) (np_episode p) @ ''.'' @ np_title p
             @ np_suffix p)
      else
        (if np_resolution p \<noteq> [] then
           np_show p @ ''.'' @ episode_code (np_season p) (np_episode p)
             @ ''.'' @ np_resolution p @ np_suffix p
         else
           np_show p @ ''.'' @ episode_code (np_season p) (np_episode p) @ np_suffix p))"

text \<open>The four f-strings inside the collision loop.\<close>

definition numbered_name :: "name_parts \<Rightarrow> nat \<Rightarrow> string" where
  "numbered_name p counter =
     (if has_title p then
        (if np_resolution p \<noteq> [] then
           np_show p @ ''.'' @ episode_code (np_season p) (np_episode p) @ ''.'' @ np_title p
             @ ''_'' @ str_nat counter @ ''.'' @ np_resolution p @ np_suffix p
         else
           np_show p @ ''.'' @ episode_code (np_season p) (np_episode p) @ ''.'' @ np_title p
             @ ''_'' @ str_nat counter @ np_suffix p)
      else
        (if np_resolution p \<noteq> [] then
           np_show p @ ''.'' @ episode_code (np_season p) (np_episode p)
             @ ''_'' @ str_nat counter @ ''.'' @ np_resolution p @ np_suffix p
         else
           np_show p @ ''.'' @ episode_code (np_season p) (np_episode p)
             @ ''_'' @ str_nat counter @ np_suffix p))"

text \<open>
  A path is a directory and a name; the new path is always a sibling of the file
  (\<open>file_path.parent / new_name\<close>). The file system is the finite set of the paths that
  exist.
\<close>

type_synonym path = "string \<times> string"

text \<open>The test \<open>new_path.exists() and new_path != file_path\<close>.\<close>

definition collides :: "path fset \<Rightarrow> path \<Rightarrow> string \<Rightarrow> bool" where
  "collides fs file_path new_name \<longleftrightarrow>
     (fst file_path, new_name) |\<in>| fs \<and> (fst file_path, new_name) \<noteq> file_path"

text \<open>
  The loop \<open>while new_path.exists() and new_path != file_path\<close>, with \<open>counter\<close>
  starting at 1 in the caller. The result is the name and the counter at exit.
\<close>

function collision_loop ::
  "path fset \<Rightarrow> path \<Rightarrow> name_parts \<Rightarrow> string \<Rightarrow> nat \<Rightarrow> string \<times> nat" where
  "collision_loop fs file_path p new_name counter =
     (if collides fs file_path new_name
      then collision_loop fs file_path p (numbered_name p counter) (counter + 1)
      else (new_name, counter))"
  by pat_completeness auto

section \<open>Renaming the files of one show\<close>

text \<open>The dictionary \<open>show_info\<close> that \<open>get_show_info\<close> caches.\<close>

record show_info =
  tmdb_id :: int
  name :: string
  seasons :: "(int \<times> int) list"
  total_episodes :: int
  is_anime :: bool

text \<open>One dictionary of \<open>log_entries\<close>.\<close>

datatype log_entry =
  Log_entry (log_original: string) (log_detected: string) (log_final: string)
    (log_new_name: string) (log_title: string)

text \<open>The calls that leave the process, in the order they are made.\<close>

datatype event =
  Title_lookup int int
| Log_append log_entry
| Rename_call path path

text \<open>
  The collaborators: the catalog, the episode-guess extraction, the process that answers
  the continuous-mapping prompt, the title lookup, pathlib's suffix, and whether the
  operating system carries out a rename (\<open>False\<close>: \<open>Path.rename\<close> raises).
\<close>

record collaborators =
  get_show_info :: "string \<Rightarrow> show_info option"
  extract_episode_info :: "string \<Rightarrow> (int \<times> int) option"
  ollama_run :: "show_info \<Rightarrow> int \<Rightarrow> int \<Rightarrow> run_outcome"
  get_episode_title :: "string \<Rightarrow> int \<Rightarrow> int \<Rightarrow> string option"
  path_suffix :: "string \<Rightarrow> string"
  rename_succeeds :: "path \<Rightarrow> path \<Rightarrow> bool"

record state =
  files :: "path fset"
  log_entries :: "log_entry list"
  trace :: "event list"

text \<open>
  Lines 337 to 416 of one pass of the loop over the files, after the episode guess: the
  final pair, the title (the decimal episode number when none was found:
  \<open>if not title: title = f"{final_episode}"\<close>), the looked-up pairs and the parts of
  the name.
\<close>

record decision =
  final_season :: int
  final_episode :: int
  title :: string
  looked_up :: "(int \<times> int) list"
  parts :: name_parts

definition decide ::
  "collaborators \<Rightarrow> string \<Rightarrow> show_info \<Rightarrow> string \<Rightarrow> int \<Rightarrow> int \<Rightarrow> decision" where
  "decide env show_name info filename detected_season detected_episode =
     (let (season0, episode0) =
            resolve_episode (is_anime info) (ollama_run env info detected_season detected_episode)
              detected_season detected_episode;
          (found, (fs, fe), lks) =
            lookup_title (get_episode_title env show_name) (is_anime info)
              (detected_season, detected_episode) (season0, episode0);
          ttl = (case found of
                   Some t \<Rightarrow> if t \<noteq> [] then t else py_str fe
                 | None \<Rightarrow> py_str fe)
      in \<lparr>final_season = fs, final_episode = fe, title = ttl, looked_up = lks,
          parts = \<lparr>np_show = clean_show_name show_name, np_season = fs, np_episode = fe,
                    np_title = safe_title ttl, np_resolution = resolution filename,
                    np_suffix = path_suffix env filename\<rparr>\<rparr>)"

datatype outcome =
  No_episode_info
| Already_named
| Dry_run string
| Renamed string
| Rename_failed string

text \<open>One pass of the loop \<open>for file_path in files\<close>.\<close>

definition rename_one ::
  "collaborators \<Rightarrow> string \<Rightarrow> show_info \<Rightarrow> bool \<Rightarrow> state \<Rightarrow> path \<Rightarrow> outcome \<times> state" where
  "rename_one env show_name info dry_run st file_path =
     (let filename = snd file_path in
      case extract_episode_info env filename of
        None \<Rightarrow> (No_episode_info, st)
      | Some (detected_season, detected_episode) \<Rightarrow>
          let d = decide env show_name info filename detected_season detected_episode;
              st = st\<lparr>trace := trace st @ map (\<lambda>(s, e). Title_lookup s e) (looked_up d)\<rparr>;
              (new_name, counter) =
                 collision_loop (files st) file_path (parts d) (first_name (parts d)) 1;
              new_path = (fst file_path, new_name)
          in if new_path = file_path then (Already_named, st)
             else
               let entry = Log_entry filename
                     (''S'' @ fmt_d 2 detected_season @ ''E'' @ fmt_d 2 detected_episode)
                     (''S'' @ fmt_d 2 (final_season d) @ ''E'' @ fmt_d 2 (final_episode d))
                     new_name (title d);
                   st = st\<lparr>log_entries := log_entries st @ [entry],
                           trace := trace st @ [Log_append entry]\<rparr>
               in if dry_run then (Dry_run new_name, st)
                  else
                    let st = st\<lparr>trace := trace st @ [Rename_call file_path new_path]\<rparr>
                    in if rename_succeeds env file_path new_path
                       then (Renamed new_name,
                             st\<lparr>files := finsert new_path (files st |-| {|file_path|})\<rparr>)
                       else (Rename_failed new_name, st))"

text \<open>The loop itself: the outcomes in the order of the files, and the last state.\<close>

fun rename_files ::
  "collaborators \<Rightarrow> string \<Rightarrow> show_info \<Rightarrow> bool \<Rightarrow> state \<Rightarrow> path list
     \<Rightarrow> outcome list \<times> state" where
  "rename_files env show_name info dry_run st [] = ([], st)"
| "rename_files env show_name info dry_run st (file_path # rest) =
     (let (out, st1) = rename_one env show_name info dry_run st file_path;
          (outs, st2) = rename_files env show_name info dry_run st1 rest
      in (out # outs, st2))"

text \<open>
  \<open>rename_show_files\<close>: a show the catalog does not know is skipped; \<open>log_entries\<close>
  starts empty for each show.
\<close>

definition rename_show_files ::
  "collaborators \<Rightarrow> string \<Rightarrow> path list \<Rightarrow> bool \<Rightarrow> path fset \<Rightarrow> (outcome list \<times> state) option" where
  "rename_show_files env show_name file_list dry_run fs =
     (case get_show_info env show_name of
        None \<Rightarrow> None
      | Some info \<Rightarrow>
          Some (rename_files env show_name info dry_run
                  \<lparr>files = fs, log_entries = [], trace = []\<rparr> file_list))"

text \<open>The numbered names from \<open>counter\<close> on that exist in the directory: what is
  left for the collision loop to step over.\<close>

definition pending :: "path fset \<Rightarrow> string \<Rightarrow> name_parts \<Rightarrow> nat \<Rightarrow> nat set" where
  "pending fs d p c = {k. c \<le> k \<and> (d, numbered_name p k) |\<in>| fs}"

subsection \<open>The examples of the specification, as collaborators\<close>

definition example_show :: show_info where
  "example_show = \<lparr>tmdb_id = 101, name = ''Example Show'', seasons = [(1, 10), (2, 10)],
     total_episodes = 20, is_anime = False\<rparr>"

definition sample_anime :: show_info where
  "sample_anime = \<lparr>tmdb_id = 202, name = ''Sample Anime'', seasons = [(1, 24)],
     total_episodes = 24, is_anime = True\<rparr>"

text \<open>
  The inference process times out for episode 4 of season 2 and answers for the others;
  the catalog has a title for S02E05 of the show, for S02E03 and S01E16 of the anime;
  a file whose name starts with \<open>locked\<close> cannot be renamed.
\<close>

definition example_env :: collaborators where
  "example_env = \<lparr>
     get_show_info = (\<lambda>n. if n = ''Example Show'' then Some example_show
                          else if n = ''Sample Anime'' then Some sample_anime else None),
     extract_episode_info = (\<lambda>f.
        if f = ''Example.Show.S02E05.1080p.mkv'' then Some (2, 5)
        else if f = ''Example.Show.S02EP005.The.Return.1080p.mkv'' then Some (2, 5)
        else if f = ''locked.Example.Show.2x05.mkv'' then Some (2, 5)
        else if f = ''Sample.Anime.S02E03.mkv'' then Some (2, 3)
        else if f = ''Sample.Anime.S02E04.4K.mkv'' then Some (2, 4)
        else if f = ''Sample.Anime.S02E05.mkv'' then Some (2, 5)
        else None),
     ollama_run = (\<lambda>info s e.
        if (s, e) = (2, 4) then TimeoutExpired
        else Completed 0 (''Episode '' @ str_nat (nat (e + (s - 1) * 12)) @ [CHR 0x0A])),
     get_episode_title = (\<lambda>n s e.
        if n = ''Example Show'' \<and> (s, e) = (2, 5) then Some ''The Return''
        else if n = ''Sample Anime'' \<and> (s, e) = (2, 3) then Some ''Arc Two Begins''
        else if n = ''Sample Anime'' \<and> (s, e) = (1, 16) then Some ''Sixteen!''
        else None),
     path_suffix = pathlib_suffix,
     rename_succeeds = (\<lambda>src dst. take 6 (snd src) \<noteq> ''locked'')\<rparr>"

text \<open>What is on disk in the examples.\<close>

definition example_files :: "path fset" where
  "example_files = {|
     (''/tv/Example Show'', ''Example.Show.S02E05.1080p.mkv''),
     (''/tv/Example Show'', ''Example.Show.S02EP005.The.Return.1080p.mkv''),
     (''/tv/Example Show'', ''Example.Show.S02EP005.The.Return_1.1080p.mkv''),
     (''/tv/Example Show'', ''locked.Example.Show.2x05.mkv''),
     (''/tv/Sample Anime'', ''Sample.Anime.S02E03.mkv'')|}"

text \<open>
  A show with an episode called \<open>Y2K\<close>, the guess \<open>(1, 5)\<close> for each of its files,
  and a directory that holds one file of it.
\<close>

definition y2k_show :: show_info where
  "y2k_show = \<lparr>tmdb_id = 303, name = ''Show'', seasons = [(1, 10)], total_episodes = 10,
     is_anime = False\<rparr>"

definition y2k_env :: collaborators where
  "y2k_env = \<lparr>
     get_show_info = (\<lambda>n. if n = ''Show'' then Some y2k_show else None),
     extract_episode_info = (\<lambda>f. Some (1, 5)),
     ollama_run = (\<lambda>info s e. RunError),
     get_episode_title = (\<lambda>n s e. if (s, e) = (1, 5) then Some ''Y2K'' else None),
     path_suffix = pathlib_suffix,
     rename_succeeds = (\<lambda>src dst. True)\<rparr>"

definition y2k_state :: state where
  "y2k_state = \<lparr>files = {|(''/tv/Show'', ''Show.S01E05.1080p.mkv'')|},
     log_entries = [], trace = []\<rparr>"

definition example_state :: state where
  "example_state = \<lparr>files = example_files, log_entries = [], trace = []\<rparr>"

section \<open>Decimal strings and the termination of the collision loop\<close>

lemma digit_val_digit_char: "d < 10 \<Longrightarrow> digit_val (digit_char d) = d"
  by (simp add: digit_val_def digit_char_def)

lemma dec_val_snoc: "dec_val (s @ [c]) = 10 * dec_val s + digit_val c"
  by (simp add: dec_val_def)

lemma dec_val_str_nat: "dec_val (str_nat n) = n"
proof (induction n rule: str_nat.induct)
  case (1 n)
  show ?case
  proof (cases "n < 10")
    case True
    then show ?thesis
      by (simp add: str_nat.simps [of n] dec_val_def digit_val_digit_char)
  next
    case False
    with 1 have "dec_val (str_nat (n div 10)) = n div 10" by simp
    with False show ?thesis
      by (simp add: str_nat.simps [of n] dec_val_snoc digit_val_digit_char)
  qed
qed

lemma str_nat_inj: "str_nat m = str_nat n \<Longrightarrow> m = n"
  by (metis dec_val_str_nat)

lemma numbered_name_inj: "numbered_name p j = numbered_name p k \<Longrightarrow> j = k"
  by (auto simp: numbered_name_def dest: str_nat_inj split: if_splits)

lemma finite_numbered_in: "finite {k. (d, numbered_name p k) |\<in>| fs}"
proof -
  have "inj (\<lambda>k. (d, numbered_name p k))"
    by (rule injI) (auto dest: numbered_name_inj)
  then have "finite ((\<lambda>k. (d, numbered_name p k)) -` fset fs)"
    by (rule finite_vimageI [rotated]) simp
  then show ?thesis by (simp add: vimage_def)
qed

lemma finite_pending: "finite (pending fs d p c)"
  unfolding pending_def by (rule finite_subset [OF _ finite_numbered_in [of d p fs]]) auto

lemma pending_Suc_le: "card (pending fs d p (Suc c)) \<le> card (pending fs d p c)"
  by (rule card_mono [OF finite_pending]) (auto simp: pending_def)

lemma pending_Suc_less:
  assumes "(d, numbered_name p c) |\<in>| fs"
  shows "card (pending fs d p (Suc c)) < card (pending fs d p c)"
proof (rule psubset_card_mono [OF finite_pending])
  have "c \<in> pending fs d p c" "c \<notin> pending fs d p (Suc c)"
    using assms by (auto simp: pending_def)
  moreover have "pending fs d p (Suc c) \<subseteq> pending fs d p c"
    by (auto simp: pending_def)
  ultimately show "pending fs d p (Suc c) \<subset> pending fs d p c" by blast
qed

text \<open>
  The loop ends on every finite file system: each pass either steps over an existing
  numbered name, of which finitely many are left, or reaches a name that does not exist
  and stops at the next test.
\<close>

termination collision_loop
proof (relation "measure (\<lambda>(fs, fp, p, nm, c).
         2 * card (pending fs (fst fp) p c) + (if (fst fp, nm) |\<in>| fs then 1 else 0))",
       goal_cases)
  case 1
  show ?case by simp
next
  case (2 fs fp p nm c)
  then have nm: "(fst fp, nm) |\<in>| fs" by (simp add: collides_def)
  show ?case
  proof (cases "(fst fp, numbered_name p c) |\<in>| fs")
    case True
    from pending_Suc_less [OF True] nm show ?thesis by simp
  next
    case False
    with pending_Suc_le [of fs "fst fp" p c] nm show ?thesis by simp
  qed
qed

declare collision_loop.simps [simp del]

section \<open>Episode resolution\<close>

text \<open>
  C1. For an anime whose continuous-mapping inference gives no usable answer, the
  episode locator sets the final season to 1 and the final episode to
  \<open>detected_episode + (detected_season - 1) * 12\<close> when the detected season is above 1,
  and to the detected episode otherwise. That pair is the first one whose title is
  looked up, and it is the pair of the file name whenever that lookup finds a title.
\<close>

theorem fallback_arithmetic:
  assumes "is_anime info"
    and "ask_ollama_for_anime_mapping (ollama_run env info ds de) = None"
  shows "resolve_episode (is_anime info) (ollama_run env info ds de) ds de
           = (1, if ds > 1 then de + (ds - 1) * 12 else de)
       \<and> hd (looked_up (decide env show_name info filename ds de))
           = (1, if ds > 1 then de + (ds - 1) * 12 else de)
       \<and> (truthy_str (get_episode_title env show_name 1
                        (if ds > 1 then de + (ds - 1) * 12 else de))
          \<longrightarrow> final_season (decide env show_name info filename ds de) = 1
            \<and> final_episode (decide env show_name info filename ds de)
                = (if ds > 1 then de + (ds - 1) * 12 else de))"
  using assms
  by (simp add: decide_def lookup_title_def resolve_episode_def fallback_episode_def Let_def)

theorem fallback_arithmetic_witness:
  "is_anime sample_anime
   \<and> ask_ollama_for_anime_mapping (ollama_run example_env sample_anime 2 4) = None
   \<and> truthy_str (get_episode_title example_env ''Sample Anime'' 1 16)
   \<and> resolve_episode (is_anime sample_anime) (ollama_run example_env sample_anime 2 4) 2 4
       = (1, 16)
   \<and> final_season (decide example_env ''Sample Anime'' sample_anime
                      ''Sample.Anime.S02E04.4K.mkv'' 2 4) = 1
   \<and> final_episode (decide example_env ''Sample Anime'' sample_anime
                      ''Sample.Anime.S02E04.4K.mkv'' 2 4) = 16"
proof -
  have a: "is_anime sample_anime"
    by (simp add: sample_anime_def)
  have n: "ask_ollama_for_anime_mapping (ollama_run example_env sample_anime 2 4) = None"
    by code_simp
  have t: "truthy_str (get_episode_title example_env ''Sample Anime'' 1 16)"
    by code_simp
  from fallback_arithmetic [OF a n, of "''Sample Anime''" "''Sample.Anime.S02E04.4K.mkv''"] t a n
  show ?thesis by simp
qed

text \<open>
  C2. For a show that is not a continuous-numbering candidate, resolution is the
  identity: the final season and episode, and the ones the file name is built from, are
  the detected ones, and the only title looked up is the one of the detected pair.
\<close>

theorem identity_for_regular_shows:
  assumes "\<not> is_anime info"
  shows "resolve_episode (is_anime info) (ollama_run env info ds de) ds de = (ds, de)
       \<and> final_season (decide env show_name info filename ds de) = ds
       \<and> final_episode (decide env show_name info filename ds de) = de
       \<and> np_season (parts (decide env show_name info filename ds de)) = ds
       \<and> np_episode (parts (decide env show_name info filename ds de)) = de
       \<and> looked_up (decide env show_name info filename ds de) = [(ds, de)]"
  using assms
  by (simp add: decide_def lookup_title_def resolve_episode_def Let_def)

theorem identity_for_regular_shows_witness:
  "\<not> is_anime example_show
   \<and> final_season (decide example_env ''Example Show'' example_show
                      ''Example.Show.S02E05.1080p.mkv'' 2 5) = 2
   \<and> final_episode (decide example_env ''Example Show'' example_show
                      ''Example.Show.S02E05.1080p.mkv'' 2 5) = 5"
proof -
  have a: "\<not> is_anime example_show"
    by (simp add: example_show_def)
  from identity_for_regular_shows [OF a, of example_env 2 5 "''Example Show''"
         "''Example.Show.S02E05.1080p.mkv''"] a
  show ?thesis by simp
qed

text \<open>
  C3. For an anime file renumbered to season 1, when the title lookup of the
  continuous pair finds nothing (no title, or an empty one), a second lookup is made
  with the detected pair, right after the first; when that one finds a title, the final
  season and episode, and the ones of the file name, are the detected ones, with that
  title.
\<close>

theorem identity_fallback_on_title_failure:
  assumes "is_anime info"
    and "resolve_episode (is_anime info) (ollama_run env info ds de) ds de = (1, cont)"
    and "\<not> truthy_str (get_episode_title env show_name 1 cont)"
  shows "looked_up (decide env show_name info filename ds de) = [(1, cont), (ds, de)]
       \<and> (\<forall>t. get_episode_title env show_name ds de = Some t \<and> t \<noteq> [] \<longrightarrow>
            final_season (decide env show_name info filename ds de) = ds
          \<and> final_episode (decide env show_name info filename ds de) = de
          \<and> np_season (parts (decide env show_name info filename ds de)) = ds
          \<and> np_episode (parts (decide env show_name info filename ds de)) = de
          \<and> title (decide env show_name info filename ds de) = t)"
  using assms
  by (simp add: decide_def lookup_title_def Let_def truthy_str_def)

theorem identity_fallback_on_title_failure_witness:
  "is_anime sample_anime
   \<and> resolve_episode (is_anime sample_anime) (ollama_run example_env sample_anime 2 3) 2 3
       = (1, 15)
   \<and> \<not> truthy_str (get_episode_title example_env ''Sample Anime'' 1 15)
   \<and> get_episode_title example_env ''Sample Anime'' 2 3 = Some ''Arc Two Begins''
   \<and> looked_up (decide example_env ''Sample Anime'' sample_anime ''Sample.Anime.S02E03.mkv'' 2 3)
       = [(1, 15), (2, 3)]
   \<and> final_season (decide example_env ''Sample Anime'' sample_anime
                      ''Sample.Anime.S02E03.mkv'' 2 3) = 2
   \<and> final_episode (decide example_env ''Sample Anime'' sample_anime
                      ''Sample.Anime.S02E03.mkv'' 2 3) = 3"
proof -
  have a: "is_anime sample_anime"
    by (simp add: sample_anime_def)
  have r: "resolve_episode (is_anime sample_anime) (ollama_run example_env sample_anime 2 3) 2 3
             = (1, 15)"
    by code_simp
  have f: "\<not> truthy_str (get_episode_title example_env ''Sample Anime'' 1 15)"
    by code_simp
  have s: "get_episode_title example_env ''Sample Anime'' 2 3 = Some ''Arc Two Begins''"
    by code_simp
  from identity_fallback_on_title_failure [OF a r f, of "''Sample.Anime.S02E03.mkv''"] a r f s
  show ?thesis by simp
qed

text \<open>
  C9. For an anime file renumbered to season 1, when neither the continuous pair nor
  the detected pair has a title, the final season and episode, and the ones of the file
  name, are the detected ones; the title is the decimal episode number.
\<close>

theorem no_title_anywhere_keeps_detected:
  assumes "is_anime info"
    and "resolve_episode (is_anime info) (ollama_run env info ds de) ds de = (1, cont)"
    and "\<not> truthy_str (get_episode_title env show_name 1 cont)"
    and "\<not> truthy_str (get_episode_title env show_name ds de)"
  shows "final_season (decide env show_name info filename ds de) = ds
       \<and> final_episode (decide env show_name info filename ds de) = de
       \<and> np_season (parts (decide env show_name info filename ds de)) = ds
       \<and> np_episode (parts (decide env show_name info filename ds de)) = de
       \<and> title (decide env show_name info filename ds de) = py_str de"
  using assms
  by (auto simp: decide_def lookup_title_def Let_def truthy_str_def split: option.splits)

theorem no_title_anywhere_keeps_detected_witness:
  "is_anime sample_anime
   \<and> resolve_episode (is_anime sample_anime) (ollama_run example_env sample_anime 2 5) 2 5
       = (1, 17)
   \<and> \<not> truthy_str (get_episode_title example_env ''Sample Anime'' 1 17)
   \<and> \<not> truthy_str (get_episode_title example_env ''Sample Anime'' 2 5)
   \<and> final_season (decide example_env ''Sample Anime'' sample_anime
                      ''Sample.Anime.S02E05.mkv'' 2 5) = 2
   \<and> final_episode (decide example_env ''Sample Anime'' sample_anime
                      ''Sample.Anime.S02E05.mkv'' 2 5) = 5"
proof -
  have a: "is_anime sample_anime"
    by (simp add: sample_anime_def)
  have r: "resolve_episode (is_anime sample_anime) (ollama_run example_env sample_anime 2 5) 2 5
             = (1, 17)"
    by code_simp
  have f: "\<not> truthy_str (get_episode_title example_env ''Sample Anime'' 1 17)"
    by code_simp
  have g: "\<not> truthy_str (get_episode_title example_env ''Sample Anime'' 2 5)"
    by code_simp
  from no_title_anywhere_keeps_detected [OF a r f g, of "''Sample.Anime.S02E05.mkv''"] a r f g
  show ?thesis by simp
qed

section \<open>The sanity bound on the inference result\<close>

lemma word_runs_nonempty: "[] \<notin> set (word_runs acc s)"
  by (induction s arbitrary: acc) auto

lemma findall_numbers_digits:
  assumes "x \<in> set (findall_numbers s)"
  shows "x \<noteq> [] \<and> list_all is_digit x"
  using assms word_runs_nonempty [of "[]" s] by (auto simp: findall_numbers_def)

lemma py_int_findall:
  "x \<in> set (findall_numbers s) \<Longrightarrow> py_int x = Some (int (dec_val x))"
  using findall_numbers_digits [of x s] by (simp add: py_int_def)

lemma py_int_last_findall:
  "findall_numbers s \<noteq> [] \<Longrightarrow>
   py_int (last (findall_numbers s)) = Some (int (dec_val (last (findall_numbers s))))"
  by (rule py_int_findall [of _ s]) simp

text \<open>
  C4. The integer the engine reads in the collaborator's answer (the last run of digits
  that stands between word boundaries) is accepted only when it lies in \<open>[1, 200]\<close>.
  A timeout, any other failure of the call, a non-zero return code, an answer with no
  such number and a number outside the range all give \<open>None\<close>, and for an anime
  \<open>None\<close> gives the fallback arithmetic.
\<close>

theorem sanity_bound:
  "(\<forall>n. ask_ollama_for_anime_mapping r = Some n \<longrightarrow>
      1 \<le> n \<and> n \<le> 200
      \<and> (\<exists>out. r = Completed 0 out \<and> findall_numbers (py_strip out) \<noteq> []
             \<and> n = int (dec_val (last (findall_numbers (py_strip out))))))
   \<and> ask_ollama_for_anime_mapping TimeoutExpired = None
   \<and> ask_ollama_for_anime_mapping RunError = None
   \<and> (rc \<noteq> 0 \<longrightarrow> ask_ollama_for_anime_mapping (Completed rc out1) = None)
   \<and> (findall_numbers (py_strip out2) = [] \<longrightarrow>
        ask_ollama_for_anime_mapping (Completed rc2 out2) = None)
   \<and> (findall_numbers (py_strip out3) \<noteq> []
        \<and> (int (dec_val (last (findall_numbers (py_strip out3)))) < 1
           \<or> 200 < int (dec_val (last (findall_numbers (py_strip out3))))) \<longrightarrow>
        ask_ollama_for_anime_mapping (Completed rc3 out3) = None)
   \<and> (is_anime info \<and> ask_ollama_for_anime_mapping (ollama_run env info ds de) = None \<longrightarrow>
        resolve_episode (is_anime info) (ollama_run env info ds de) ds de
          = (1, fallback_episode ds de))"
proof (intro conjI allI impI)
  fix n assume "ask_ollama_for_anime_mapping r = Some n"
  then obtain out where r: "r = Completed 0 out"
      and ne: "findall_numbers (py_strip out) \<noteq> []"
      and n: "py_int (last (findall_numbers (py_strip out))) = Some n"
      and b: "1 \<le> n" "n \<le> 200"
    by (auto simp: ask_ollama_for_anime_mapping_def Let_def
             split: run_outcome.splits if_splits option.splits)
  from b show "1 \<le> n" "n \<le> 200" .
  from n py_int_last_findall [OF ne]
  have "n = int (dec_val (last (findall_numbers (py_strip out))))" by simp
  with r ne
  show "\<exists>out. r = Completed 0 out \<and> findall_numbers (py_strip out) \<noteq> []
          \<and> n = int (dec_val (last (findall_numbers (py_strip out))))"
    by blast
next
  show "ask_ollama_for_anime_mapping TimeoutExpired = None"
    by (simp add: ask_ollama_for_anime_mapping_def)
next
  show "ask_ollama_for_anime_mapping RunError = None"
    by (simp add: ask_ollama_for_anime_mapping_def)
next
  assume "rc \<noteq> 0"
  then show "ask_ollama_for_anime_mapping (Completed rc out1) = None"
    by (simp add: ask_ollama_for_anime_mapping_def)
next
  assume "findall_numbers (py_strip out2) = []"
  then show "ask_ollama_for_anime_mapping (Completed rc2 out2) = None"
    by (simp add: ask_ollama_for_anime_mapping_def Let_def)
next
  assume a: "findall_numbers (py_strip out3) \<noteq> []
        \<and> (int (dec_val (last (findall_numbers (py_strip out3)))) < 1
           \<or> 200 < int (dec_val (last (findall_numbers (py_strip out3)))))"
  with py_int_last_findall [of "py_strip out3"]
  show "ask_ollama_for_anime_mapping (Completed rc3 out3) = None"
    by (auto simp: ask_ollama_for_anime_mapping_def Let_def)
next
  assume "is_anime info \<and> ask_ollama_for_anime_mapping (ollama_run env info ds de) = None"
  then show "resolve_episode (is_anime info) (ollama_run env info ds de) ds de
          = (1, fallback_episode ds de)"
    by (simp add: resolve_episode_def)
qed

theorem sanity_bound_witness:
  "ask_ollama_for_anime_mapping (Completed 0 (''Episode 15'' @ [CHR 0x0A])) = Some 15
   \<and> ask_ollama_for_anime_mapping (Completed 1 ''15'') = None
   \<and> ask_ollama_for_anime_mapping (Completed 0 ''no idea'') = None
   \<and> ask_ollama_for_anime_mapping (Completed 0 ''maybe 250'') = None
   \<and> resolve_episode (is_anime sample_anime) (ollama_run example_env sample_anime 2 4) 2 4
       = (1, 16)"
proof -
  have h1: "ask_ollama_for_anime_mapping (Completed 0 (''Episode 15'' @ [CHR 0x0A])) = Some 15"
    by code_simp
  have h2: "(1::int) \<noteq> 0"
    by simp
  have h3: "findall_numbers (py_strip ''no idea'') = []"
    by code_simp
  have h4: "findall_numbers (py_strip ''maybe 250'') \<noteq> []
        \<and> (int (dec_val (last (findall_numbers (py_strip ''maybe 250'')))) < 1
           \<or> 200 < int (dec_val (last (findall_numbers (py_strip ''maybe 250'')))))"
    by code_simp
  have h5: "is_anime sample_anime
        \<and> ask_ollama_for_anime_mapping (ollama_run example_env sample_anime 2 4) = None"
    by code_simp
  from sanity_bound [where r = "Completed 0 (''Episode 15'' @ [CHR 0x0A])" and rc = 1
         and ?out1.0 = "''15''" and ?out2.0 = "''no idea''" and ?rc2.0 = 0
         and ?out3.0 = "''maybe 250''" and ?rc3.0 = 0
         and info = sample_anime and env = example_env and ds = 2 and de = 4]
       h1 h2 h3 h4 h5
  show ?thesis by (auto simp: fallback_episode_def)
qed


section \<open>The collision loop\<close>

lemma collision_loop_stop:
  "\<not> collides fs file_path nm \<Longrightarrow> collision_loop fs file_path p nm c = (nm, c)"
  by (subst collision_loop.simps) simp

lemma collision_loop_step:
  "collides fs file_path nm \<Longrightarrow>
   collision_loop fs file_path p nm c
     = collision_loop fs file_path p (numbered_name p c) (c + 1)"
  by (subst collision_loop.simps) simp

lemma collision_loop_exit:
  "collision_loop fs file_path p nm c = (nm', c') \<Longrightarrow> \<not> collides fs file_path nm'"
proof (induction fs file_path p nm c rule: collision_loop.induct)
  case (1 fs file_path p nm c)
  show ?case
  proof (cases "collides fs file_path nm")
    case False
    with "1.prems" show ?thesis by (simp add: collision_loop_stop)
  next
    case True
    with "1.prems"
    have "collision_loop fs file_path p (numbered_name p c) (c + 1) = (nm', c')"
      by (simp add: collision_loop_step)
    with True "1.IH" show ?thesis by (simp add: collides_def)
  qed
qed

lemma collision_loop_steps:
  "collision_loop fs file_path p nm c = (nm', c') \<Longrightarrow>
     c \<le> c'
   \<and> (c' = c \<longrightarrow> nm' = nm)
   \<and> (c < c' \<longrightarrow> nm' = numbered_name p (c' - 1) \<and> collides fs file_path nm
         \<and> (\<forall>k. c \<le> k \<and> k < c' - 1 \<longrightarrow> collides fs file_path (numbered_name p k)))"
proof (induction fs file_path p nm c rule: collision_loop.induct)
  case (1 fs file_path p nm c)
  show ?case
  proof (cases "collides fs file_path nm")
    case False
    with "1.prems" show ?thesis
      by (simp add: collision_loop_stop)
  next
    case True
    with "1.prems"
    have rec: "collision_loop fs file_path p (numbered_name p c) (c + 1) = (nm', c')"
      by (simp add: collision_loop_step)
    from "1.IH" [OF True rec]
    have ih: "c + 1 \<le> c'"
      "c' = c + 1 \<longrightarrow> nm' = numbered_name p c"
      "c + 1 < c' \<longrightarrow> nm' = numbered_name p (c' - 1) \<and> collides fs file_path (numbered_name p c)
         \<and> (\<forall>k. c + 1 \<le> k \<and> k < c' - 1 \<longrightarrow> collides fs file_path (numbered_name p k))"
      by simp_all
    have "\<forall>k. c \<le> k \<and> k < c' - 1 \<longrightarrow> collides fs file_path (numbered_name p k)"
    proof (intro allI impI)
      fix k assume k: "c \<le> k \<and> k < c' - 1"
      then have "c + 1 < c'" by arith
      with ih(3) k show "collides fs file_path (numbered_name p k)"
        by (cases "k = c") auto
    qed
    moreover have "nm' = numbered_name p (c' - 1)"
      using ih by (cases "c' = c + 1") auto
    ultimately show ?thesis using ih(1) True by auto
  qed
qed

lemma numbered_name_shape:
  "numbered_name p k =
     np_show p @ ''.'' @ episode_code (np_season p) (np_episode p)
       @ (if has_title p then ''.'' @ np_title p else [])
       @ ''_'' @ str_nat k
       @ (if np_resolution p \<noteq> [] then ''.'' @ np_resolution p else [])
       @ np_suffix p"
  by (simp add: numbered_name_def)


text \<open>
  C5. When the synthesized base name collides with an existing path that is not the
  file itself, the loop returns a name with \<open>_{counter}\<close> put right after the title
  segment (after the episode code when there is no title) and before the resolution tag
  and the suffix. The counters are tried from 1 upwards, each one only after all smaller
  ones collided, so with the base name and the names numbered 1 to N - 1 on disk and
  the one numbered N free the result carries \<open>_N\<close>. The returned path is never an
  existing path other than the file itself.
\<close>

theorem collision_uniqueness:
  assumes "collision_loop fs file_path p (first_name p) 1 = (new_name, counter)"
  shows "(fst file_path, new_name) |\<notin>| fs |-| {|file_path|}
       \<and> 1 \<le> counter
       \<and> (\<not> collides fs file_path (first_name p) \<longrightarrow>
            new_name = first_name p \<and> counter = 1)
       \<and> (collides fs file_path (first_name p) \<longrightarrow>
            1 < counter
          \<and> new_name =
              np_show p @ ''.'' @ episode_code (np_season p) (np_episode p)
                @ (if has_title p then ''.'' @ np_title p else [])
                @ ''_'' @ str_nat (counter - 1)
                @ (if np_resolution p \<noteq> [] then ''.'' @ np_resolution p else [])
                @ np_suffix p
          \<and> (\<forall>k. 1 \<le> k \<and> k < counter - 1 \<longrightarrow> collides fs file_path (numbered_name p k)))
       \<and> (\<forall>N. 1 \<le> N \<and> collides fs file_path (first_name p)
              \<and> (\<forall>k. 1 \<le> k \<and> k < N \<longrightarrow> collides fs file_path (numbered_name p k))
              \<and> (fst file_path, numbered_name p N) |\<notin>| fs
            \<longrightarrow> new_name = numbered_name p N \<and> counter = N + 1)"
proof -
  note steps = collision_loop_steps [OF assms]
  note exit = collision_loop_exit [OF assms]
  have a: "(fst file_path, new_name) |\<notin>| fs |-| {|file_path|}"
    using exit by (auto simp: collides_def)
  have b: "1 \<le> counter"
    using steps by simp
  have c: "\<not> collides fs file_path (first_name p) \<longrightarrow> new_name = first_name p \<and> counter = 1"
    using assms by (auto simp: collision_loop_stop)
  have gt: "1 < counter" if "collides fs file_path (first_name p)"
  proof (rule ccontr)
    assume "\<not> 1 < counter"
    with b have "counter = 1" by simp
    with steps have "new_name = first_name p" by simp
    with exit that show False by simp
  qed
  have d: "collides fs file_path (first_name p) \<longrightarrow>
            1 < counter
          \<and> new_name =
              np_show p @ ''.'' @ episode_code (np_season p) (np_episode p)
                @ (if has_title p then ''.'' @ np_title p else [])
                @ ''_'' @ str_nat (counter - 1)
                @ (if np_resolution p \<noteq> [] then ''.'' @ np_resolution p else [])
                @ np_suffix p
          \<and> (\<forall>k. 1 \<le> k \<and> k < counter - 1 \<longrightarrow> collides fs file_path (numbered_name p k))"
  proof
    assume col: "collides fs file_path (first_name p)"
    from gt [OF col] steps
    have "new_name = numbered_name p (counter - 1)"
      and "\<forall>k. 1 \<le> k \<and> k < counter - 1 \<longrightarrow> collides fs file_path (numbered_name p k)"
      by simp_all
    with gt [OF col] show "1 < counter
          \<and> new_name =
              np_show p @ ''.'' @ episode_code (np_season p) (np_episode p)
                @ (if has_title p then ''.'' @ np_title p else [])
                @ ''_'' @ str_nat (counter - 1)
                @ (if np_resolution p \<noteq> [] then ''.'' @ np_resolution p else [])
                @ np_suffix p
          \<and> (\<forall>k. 1 \<le> k \<and> k < counter - 1 \<longrightarrow> collides fs file_path (numbered_name p k))"
      by (simp only: numbered_name_shape)
  qed
  have e: "\<forall>N. 1 \<le> N \<and> collides fs file_path (first_name p)
              \<and> (\<forall>k. 1 \<le> k \<and> k < N \<longrightarrow> collides fs file_path (numbered_name p k))
              \<and> (fst file_path, numbered_name p N) |\<notin>| fs
            \<longrightarrow> new_name = numbered_name p N \<and> counter = N + 1"
  proof (intro allI impI)
    fix N
    assume h: "1 \<le> N \<and> collides fs file_path (first_name p)
              \<and> (\<forall>k. 1 \<le> k \<and> k < N \<longrightarrow> collides fs file_path (numbered_name p k))
              \<and> (fst file_path, numbered_name p N) |\<notin>| fs"
    then have col: "collides fs file_path (first_name p)" by simp
    from gt [OF col] steps
    have nm: "new_name = numbered_name p (counter - 1)"
      and below: "\<forall>k. 1 \<le> k \<and> k < counter - 1 \<longrightarrow> collides fs file_path (numbered_name p k)"
      by simp_all
    have "\<not> N < counter - 1"
    proof
      assume "N < counter - 1"
      with below h have "collides fs file_path (numbered_name p N)" by simp
      with h show False by (simp add: collides_def)
    qed
    moreover have "\<not> counter - 1 < N"
    proof
      assume "counter - 1 < N"
      with h gt [OF col] have "collides fs file_path (numbered_name p (counter - 1))" by simp
      with exit nm show False by simp
    qed
    ultimately have "counter - 1 = N" by simp
    with nm gt [OF col] show "new_name = numbered_name p N \<and> counter = N + 1" by auto
  qed
  from a b c d e show ?thesis by blast
qed

theorem collision_uniqueness_witness:
  "collision_loop example_files (''/tv/Example Show'', ''Example.Show.S02E05.1080p.mkv'')
     (parts (decide example_env ''Example Show'' example_show
               ''Example.Show.S02E05.1080p.mkv'' 2 5))
     (first_name (parts (decide example_env ''Example Show'' example_show
               ''Example.Show.S02E05.1080p.mkv'' 2 5))) 1
     = (''Example.Show.S02EP005.The.Return_2.1080p.mkv'', 3)
   \<and> (''/tv/Example Show'', ''Example.Show.S02EP005.The.Return_2.1080p.mkv'')
        |\<notin>| example_files |-| {|(''/tv/Example Show'', ''Example.Show.S02E05.1080p.mkv'')|}"
proof -
  let ?file = "(''/tv/Example Show'', ''Example.Show.S02E05.1080p.mkv'')"
  let ?p = "parts (decide example_env ''Example Show'' example_show
                     ''Example.Show.S02E05.1080p.mkv'' 2 5)"
  have run: "collision_loop example_files ?file ?p (first_name ?p) 1
               = (''Example.Show.S02EP005.The.Return_2.1080p.mkv'', 3)"
    by code_simp
  from collision_uniqueness [OF run, THEN conjunct1]
  have "(''/tv/Example Show'', ''Example.Show.S02EP005.The.Return_2.1080p.mkv'')
          |\<notin>| example_files |-| {|?file|}"
    by (simp only: fst_conv not_False_eq_True)
  with run show ?thesis by (rule conjI)
qed

section \<open>The log and the rename\<close>

text \<open>
  C10. Outside dry-run mode the log entry of a file is appended before the rename is
  attempted: when the rename fails, the file system is as before and the log has one
  more entry, the one of this file with the new name, appended before the rename call.
\<close>

theorem log_entry_survives_failed_rename:
  assumes "extract_episode_info env (snd file_path) = Some (ds, de)"
    and "d = decide env show_name info (snd file_path) ds de"
    and "collision_loop (files st) file_path (parts d) (first_name (parts d)) 1
           = (new_name, counter)"
    and "(fst file_path, new_name) \<noteq> file_path"
    and "\<not> rename_succeeds env file_path (fst file_path, new_name)"
    and "entry = Log_entry (snd file_path)
                   (''S'' @ fmt_d 2 ds @ ''E'' @ fmt_d 2 de)
                   (''S'' @ fmt_d 2 (final_season d) @ ''E'' @ fmt_d 2 (final_episode d))
                   new_name (title d)"
  shows "rename_one env show_name info False st file_path
           = (Rename_failed new_name,
              st\<lparr>log_entries := log_entries st @ [entry],
                 trace := trace st @ map (\<lambda>(s, e). Title_lookup s e) (looked_up d)
                            @ [Log_append entry,
                               Rename_call file_path (fst file_path, new_name)]\<rparr>)"
  using assms by (simp add: rename_one_def Let_def)

theorem log_entry_survives_failed_rename_witness:
  "fst (rename_one example_env ''Example Show'' example_show False example_state
          (''/tv/Example Show'', ''locked.Example.Show.2x05.mkv''))
     = Rename_failed ''Example.Show.S02EP005.The.Return.mkv''
   \<and> map log_new_name (log_entries (snd (rename_one example_env ''Example Show'' example_show
          False example_state (''/tv/Example Show'', ''locked.Example.Show.2x05.mkv''))))
     = [''Example.Show.S02EP005.The.Return.mkv'']
   \<and> files (snd (rename_one example_env ''Example Show'' example_show
          False example_state (''/tv/Example Show'', ''locked.Example.Show.2x05.mkv'')))
     = example_files"
proof -
  let ?file = "(''/tv/Example Show'', ''locked.Example.Show.2x05.mkv'')"
  let ?d = "decide example_env ''Example Show'' example_show (snd ?file) 2 5"
  let ?new = "''Example.Show.S02EP005.The.Return.mkv''"
  have x: "extract_episode_info example_env (snd ?file) = Some (2, 5)"
    by code_simp
  have l: "collision_loop (files example_state) ?file (parts ?d) (first_name (parts ?d)) 1
             = (?new, 1)"
    by code_simp
  have n: "(fst ?file, ?new) \<noteq> ?file"
    by simp
  have r: "\<not> rename_succeeds example_env ?file (fst ?file, ?new)"
    by code_simp
  from log_entry_survives_failed_rename [OF x refl l n r refl]
  show ?thesis by (simp add: example_state_def)
qed

section \<open>Running the engine on its own output\<close>

lemma rename_one_renamed:
  assumes "extract_episode_info env (snd file_path) = Some (ds, de)"
    and "d = decide env show_name info (snd file_path) ds de"
    and "collision_loop (files st) file_path (parts d) (first_name (parts d)) 1
           = (new_name, counter)"
    and "(fst file_path, new_name) \<noteq> file_path"
    and "rename_succeeds env file_path (fst file_path, new_name)"
    and "entry = Log_entry (snd file_path)
                   (''S'' @ fmt_d 2 ds @ ''E'' @ fmt_d 2 de)
                   (''S'' @ fmt_d 2 (final_season d) @ ''E'' @ fmt_d 2 (final_episode d))
                   new_name (title d)"
  shows "rename_one env show_name info False st file_path
           = (Renamed new_name,
              st\<lparr>log_entries := log_entries st @ [entry],
                 trace := trace st @ map (\<lambda>(s, e). Title_lookup s e) (looked_up d)
                            @ [Log_append entry,
                               Rename_call file_path (fst file_path, new_name)],
                 files := finsert (fst file_path, new_name) (files st |-| {|file_path|})\<rparr>)"
  using assms by (simp add: rename_one_def Let_def)

text \<open>
  The test of lines 434 to 436 itself: a file whose name is the one synthesized for it
  is left alone, in either mode, with no log entry and no rename call.
\<close>

lemma already_named_no_operation:
  assumes "extract_episode_info env (snd file_path) = Some (ds, de)"
    and "d = decide env show_name info (snd file_path) ds de"
    and "first_name (parts d) = snd file_path"
  shows "rename_one env show_name info dry_run st file_path
           = (Already_named,
              st\<lparr>trace := trace st @ map (\<lambda>(s, e). Title_lookup s e) (looked_up d)\<rparr>)"
proof -
  have "\<not> collides (files st) file_path (first_name (parts d))"
    using assms(3) by (simp add: collides_def)
  then have "collision_loop (files st) file_path (parts d) (first_name (parts d)) 1
               = (first_name (parts d), 1)"
    by (rule collision_loop_stop)
  with assms show ?thesis
    by (simp add: rename_one_def Let_def)
qed

text \<open>
  C6. The file \<open>Show.S01E05.1080p.mkv\<close> of a show whose episode is called \<open>Y2K\<close> is
  renamed to \<open>Show.S01EP005.Y2K.1080p.mkv\<close>. A second run over that file, with the same
  guess and the same title, reads the resolution tag \<open>2k\<close> in the title and renames
  the file again.
\<close>

theorem second_run_renames_again:
  "fst (rename_one y2k_env ''Show'' y2k_show False y2k_state
          (''/tv/Show'', ''Show.S01E05.1080p.mkv''))
     = Renamed ''Show.S01EP005.Y2K.1080p.mkv''
   \<and> files (snd (rename_one y2k_env ''Show'' y2k_show False y2k_state
          (''/tv/Show'', ''Show.S01E05.1080p.mkv'')))
     = {|(''/tv/Show'', ''Show.S01EP005.Y2K.1080p.mkv'')|}
   \<and> fst (rename_one y2k_env ''Show'' y2k_show False
          (snd (rename_one y2k_env ''Show'' y2k_show False y2k_state
                  (''/tv/Show'', ''Show.S01E05.1080p.mkv'')))
          (''/tv/Show'', ''Show.S01EP005.Y2K.1080p.mkv''))
     = Renamed ''Show.S01EP005.Y2K.2k.mkv''"
proof -
  let ?file1 = "(''/tv/Show'', ''Show.S01E05.1080p.mkv'')"
  let ?file2 = "(''/tv/Show'', ''Show.S01EP005.Y2K.1080p.mkv'')"
  let ?d1 = "decide y2k_env ''Show'' y2k_show (snd ?file1) 1 5"
  let ?d2 = "decide y2k_env ''Show'' y2k_show (snd ?file2) 1 5"
  let ?new1 = "''Show.S01EP005.Y2K.1080p.mkv''"
  let ?new2 = "''Show.S01EP005.Y2K.2k.mkv''"
  let ?st1 = "snd (rename_one y2k_env ''Show'' y2k_show False y2k_state ?file1)"
  have x1: "extract_episode_info y2k_env (snd ?file1) = Some (1, 5)"
    by code_simp
  have l1: "collision_loop (files y2k_state) ?file1 (parts ?d1) (first_name (parts ?d1)) 1
              = (?new1, 1)"
    by code_simp
  have r1: "rename_succeeds y2k_env ?file1 (fst ?file1, ?new1)"
    by code_simp
  note run1 = rename_one_renamed [OF x1 refl l1 _ r1 refl]
  have out1: "fst (rename_one y2k_env ''Show'' y2k_show False y2k_state ?file1) = Renamed ?new1"
    by (subst run1) simp_all
  have files1: "files ?st1 = {|?file2|}"
    by (subst run1) (simp_all add: y2k_state_def)
  have x2: "extract_episode_info y2k_env (snd ?file2) = Some (1, 5)"
    by code_simp
  have "collision_loop {|?file2|} ?file2 (parts ?d2) (first_name (parts ?d2)) 1 = (?new2, 1)"
    by code_simp
  then have l2: "collision_loop (files ?st1) ?file2 (parts ?d2) (first_name (parts ?d2)) 1
                   = (?new2, 1)"
    by (simp only: files1)
  have r2: "rename_succeeds y2k_env ?file2 (fst ?file2, ?new2)"
    by code_simp
  note run2 = rename_one_renamed [OF x2 refl l2 _ r2 refl]
  have out2: "fst (rename_one y2k_env ''Show'' y2k_show False ?st1 ?file2) = Renamed ?new2"
    by (subst run2) simp_all
  from out1 files1 out2 show ?thesis by (intro conjI)
qed

section \<open>The title segment\<close>

lemma set_collapse_ws: "set (collapse_ws s) \<subseteq> insert CHR ''.'' {c \<in> set s. \<not> is_space c}"
proof (induction s rule: collapse_ws.induct)
  case 1
  show ?case by simp
next
  case (2 c cs)
  show ?case
  proof (cases "is_space c")
    case True
    with 2 have "set (collapse_ws (dropWhile is_space cs))
                   \<subseteq> insert CHR ''.'' {c \<in> set (dropWhile is_space cs). \<not> is_space c}"
      by simp
    also have "\<dots> \<subseteq> insert CHR ''.'' {c \<in> set cs. \<not> is_space c}"
      by (auto dest: set_dropWhileD)
    finally show ?thesis using True by auto
  next
    case False
    with 2 show ?thesis by auto
  qed
qed

lemma set_strip_chars: "set (strip_chars p s) \<subseteq> set s"
  by (auto simp: strip_chars_def dest!: set_dropWhileD)

lemma hd_strip_chars:
  assumes "strip_chars p s \<noteq> []"
  shows "\<not> p (hd (strip_chars p s))"
proof -
  have "strip_chars p s = []" if "dropWhile p s = []"
    by (simp only: strip_chars_def that rev.simps dropWhile.simps)
  with assms have ne: "dropWhile p s \<noteq> []"
    by blast
  then obtain x xs where ys: "dropWhile p s = x # xs"
    by (cases "dropWhile p s") auto
  from hd_dropWhile [OF ne] ys have x: "\<not> p x" by simp
  have "strip_chars p s = x # rev (dropWhile p (rev xs))"
    using x by (simp add: strip_chars_def ys dropWhile_append3)
  with x show ?thesis by simp
qed

lemma safe_title_chars: "c \<in> set (safe_title t) \<Longrightarrow> is_alnum c \<or> c = CHR ''.''"
proof -
  assume "c \<in> set (safe_title t)"
  then have "c \<in> set (strip_dots (collapse_ws (remove_special t)))"
    by (auto simp: safe_title_def dest: in_set_takeD)
  then have "c \<in> set (collapse_ws (remove_special t))"
    using set_strip_chars by (auto simp: strip_dots_def)
  then have "c = CHR ''.'' \<or> (c \<in> set (remove_special t) \<and> \<not> is_space c)"
    using set_collapse_ws [of "remove_special t"] by auto
  then show ?thesis by (auto simp: remove_special_def)
qed

lemma safe_title_hd: "safe_title t \<noteq> [] \<Longrightarrow> hd (safe_title t) \<noteq> CHR ''.''"
proof -
  assume ne: "safe_title t \<noteq> []"
  let ?s = "strip_dots (collapse_ws (remove_special t))"
  from ne have s: "?s \<noteq> []" by (auto simp: safe_title_def)
  then have "hd ?s \<noteq> CHR ''.''"
    using hd_strip_chars [of "\<lambda>c. c = CHR ''.''" "collapse_ws (remove_special t)"]
    by (simp add: strip_dots_def)
  moreover from s have "hd (safe_title t) = hd ?s"
    by (cases ?s) (simp_all add: safe_title_def)
  ultimately show ?thesis by simp
qed

lemma decide_parts_title:
  "np_title (parts (decide env show_name info filename ds de))
     = safe_title (title (decide env show_name info filename ds de))"
  by (simp add: decide_def Let_def split: prod.splits)

lemma strip_chars_id:
  assumes "u = [] \<or> (\<not> p (hd u) \<and> \<not> p (last u))"
  shows "strip_chars p u = u"
proof (cases "u = []")
  case True
  then show ?thesis by (simp add: strip_chars_def)
next
  case False
  with assms have h: "\<not> p (hd u)" and l: "\<not> p (last u)" by simp_all
  from False h have "dropWhile p u = u"
    by (simp add: dropWhile_eq_self_iff)
  moreover from False l have "dropWhile p (rev u) = rev u"
    by (simp add: dropWhile_eq_self_iff hd_rev)
  ultimately show ?thesis by (simp add: strip_chars_def)
qed

text \<open>
  C7, as stated: the sanitised title is the text with the characters outside
  alphanumerics and whitespace removed and the whitespace runs collapsed to a dot, cut to
  50 characters. The source also strips the leading and trailing dots before the cut.
\<close>

theorem title_sanitizer_counterexample:
  "safe_title ''Who Are You ?'' = ''Who.Are.You''
   \<and> spec_safe_title ''Who Are You ?'' = ''Who.Are.You.''
   \<and> safe_title ''Who Are You ?'' \<noteq> spec_safe_title ''Who Are You ?''"
  by code_simp


text \<open>
  C7, amended. The title is sanitised (characters outside alphanumerics and whitespace
  removed, whitespace runs collapsed to a single dot, leading and trailing dots
  stripped) and then truncated to 50 characters: the result has at most 50 characters,
  all alphanumeric or dots, does not start with a dot, and is the text of the
  specification's recipe whenever that text neither starts nor ends with a dot. It is
  the title segment of the name; when it is empty or the decimal string of the final
  episode, the names (first and numbered) have no title segment.
\<close>

theorem title_sanitized_and_omitted:
  "safe_title t = take 50 (strip_dots (collapse_ws (remove_special t)))
   \<and> length (safe_title t) \<le> 50
   \<and> (\<forall>c \<in> set (safe_title t). is_alnum c \<or> c = CHR ''.'')
   \<and> (safe_title t \<noteq> [] \<longrightarrow> hd (safe_title t) \<noteq> CHR ''.'')
   \<and> (collapse_ws (remove_special t2) = []
        \<or> (hd (collapse_ws (remove_special t2)) \<noteq> CHR ''.''
           \<and> last (collapse_ws (remove_special t2)) \<noteq> CHR ''.'')
      \<longrightarrow> safe_title t2 = spec_safe_title t2)
   \<and> np_title (parts (decide env show_name info filename ds de))
       = safe_title (title (decide env show_name info filename ds de))
   \<and> (np_title p = [] \<or> np_title p = py_str (np_episode p) \<longrightarrow>
        first_name p = np_show p @ ''.'' @ episode_code (np_season p) (np_episode p)
          @ (if np_resolution p \<noteq> [] then ''.'' @ np_resolution p else []) @ np_suffix p
      \<and> (\<forall>k. numbered_name p k =
             np_show p @ ''.'' @ episode_code (np_season p) (np_episode p)
               @ ''_'' @ str_nat k
               @ (if np_resolution p \<noteq> [] then ''.'' @ np_resolution p else [])
               @ np_suffix p))
   \<and> (np_title q \<noteq> [] \<and> np_title q \<noteq> py_str (np_episode q) \<longrightarrow>
        first_name q = np_show q @ ''.'' @ episode_code (np_season q) (np_episode q)
          @ ''.'' @ np_title q
          @ (if np_resolution q \<noteq> [] then ''.'' @ np_resolution q else []) @ np_suffix q)"
proof (intro conjI)
  show "safe_title t = take 50 (strip_dots (collapse_ws (remove_special t)))"
    by (simp add: safe_title_def)
  show "length (safe_title t) \<le> 50"
    by (simp add: safe_title_def)
  show "\<forall>c \<in> set (safe_title t). is_alnum c \<or> c = CHR ''.''"
    using safe_title_chars by blast
  show "safe_title t \<noteq> [] \<longrightarrow> hd (safe_title t) \<noteq> CHR ''.''"
    using safe_title_hd by blast
  show "collapse_ws (remove_special t2) = []
        \<or> (hd (collapse_ws (remove_special t2)) \<noteq> CHR ''.''
           \<and> last (collapse_ws (remove_special t2)) \<noteq> CHR ''.'')
      \<longrightarrow> safe_title t2 = spec_safe_title t2"
    using strip_chars_id [of "collapse_ws (remove_special t2)" "\<lambda>c. c = CHR ''.''"]
    by (auto simp: safe_title_def spec_safe_title_def strip_dots_def)
  show "np_title (parts (decide env show_name info filename ds de))
       = safe_title (title (decide env show_name info filename ds de))"
    by (rule decide_parts_title)
  show "np_title p = [] \<or> np_title p = py_str (np_episode p) \<longrightarrow>
        first_name p = np_show p @ ''.'' @ episode_code (np_season p) (np_episode p)
          @ (if np_resolution p \<noteq> [] then ''.'' @ np_resolution p else []) @ np_suffix p
      \<and> (\<forall>k. numbered_name p k =
             np_show p @ ''.'' @ episode_code (np_season p) (np_episode p)
               @ ''_'' @ str_nat k
               @ (if np_resolution p \<noteq> [] then ''.'' @ np_resolution p else [])
               @ np_suffix p)"
    by (auto simp: first_name_def numbered_name_def has_title_def)
  show "np_title q \<noteq> [] \<and> np_title q \<noteq> py_str (np_episode q) \<longrightarrow>
        first_name q = np_show q @ ''.'' @ episode_code (np_season q) (np_episode q)
          @ ''.'' @ np_title q
          @ (if np_resolution q \<noteq> [] then ''.'' @ np_resolution q else []) @ np_suffix q"
    by (auto simp: first_name_def has_title_def)
qed

theorem title_sanitized_and_omitted_witness:
  "safe_title ''Who Are You ?'' = ''Who.Are.You''
   \<and> safe_title ''The Return'' = spec_safe_title ''The Return''
   \<and> np_title (parts (decide example_env ''Sample Anime'' sample_anime
                         ''Sample.Anime.S02E05.mkv'' 2 5)) = ''5''
   \<and> first_name (parts (decide example_env ''Sample Anime'' sample_anime
                           ''Sample.Anime.S02E05.mkv'' 2 5)) = ''Sample.Anime.S02EP005.mkv''
   \<and> first_name (parts (decide example_env ''Example Show'' example_show
                           ''Example.Show.S02E05.1080p.mkv'' 2 5))
       = ''Example.Show.S02EP005.The.Return.1080p.mkv''"
proof -
  let ?p = "parts (decide example_env ''Sample Anime'' sample_anime ''Sample.Anime.S02E05.mkv'' 2 5)"
  let ?q = "parts (decide example_env ''Example Show'' example_show
                     ''Example.Show.S02E05.1080p.mkv'' 2 5)"
  have t: "safe_title ''Who Are You ?'' \<noteq> []"
    by code_simp
  have u: "collapse_ws (remove_special ''The Return'') = []
        \<or> (hd (collapse_ws (remove_special ''The Return'')) \<noteq> CHR ''.''
           \<and> last (collapse_ws (remove_special ''The Return'')) \<noteq> CHR ''.'')"
    by code_simp
  have pe: "?p = \<lparr>np_show = ''Sample.Anime'', np_season = 2, np_episode = 5, np_title = ''5'',
                 np_resolution = [], np_suffix = ''.mkv''\<rparr>"
    by code_simp
  have qe: "?q = \<lparr>np_show = ''Example.Show'', np_season = 2, np_episode = 5,
                 np_title = ''The.Return'', np_resolution = ''1080p'', np_suffix = ''.mkv''\<rparr>"
    by code_simp
  have five: "py_str 5 = ''5''" and code: "episode_code 2 5 = ''S02EP005''"
    by code_simp+
  have p: "np_title ?p = [] \<or> np_title ?p = py_str (np_episode ?p)"
    by (simp add: pe five)
  have q: "np_title ?q \<noteq> [] \<and> np_title ?q \<noteq> py_str (np_episode ?q)"
    by (simp add: qe five)
  have pv: "np_show ?p = ''Sample.Anime'' \<and> episode_code (np_season ?p) (np_episode ?p) = ''S02EP005''
          \<and> np_resolution ?p = [] \<and> np_suffix ?p = ''.mkv'' \<and> np_title ?p = ''5''"
    by (simp add: pe code)
  have qv: "np_show ?q = ''Example.Show'' \<and> episode_code (np_season ?q) (np_episode ?q) = ''S02EP005''
          \<and> np_resolution ?q = ''1080p'' \<and> np_suffix ?q = ''.mkv'' \<and> np_title ?q = ''The.Return''"
    by (simp add: qe code)
  have s: "take 50 (strip_dots (collapse_ws (remove_special ''Who Are You ?''))) = ''Who.Are.You''"
    by code_simp
  note inst = title_sanitized_and_omitted [where t = "''Who Are You ?''" and ?t2.0 = "''The Return''"
      and p = "?p" and q = "?q"]
  from inst s have c1: "safe_title ''Who Are You ?'' = ''Who.Are.You''"
    by simp
  from inst u have c2: "safe_title ''The Return'' = spec_safe_title ''The Return''"
    by blast
  from inst p have "first_name ?p = np_show ?p @ ''.'' @ episode_code (np_season ?p) (np_episode ?p)
          @ (if np_resolution ?p \<noteq> [] then ''.'' @ np_resolution ?p else []) @ np_suffix ?p"
    by blast
  with pv have c3: "first_name ?p = ''Sample.Anime.S02EP005.mkv''"
    by simp
  from inst q have "first_name ?q = np_show ?q @ ''.'' @ episode_code (np_season ?q) (np_episode ?q)
          @ ''.'' @ np_title ?q
          @ (if np_resolution ?q \<noteq> [] then ''.'' @ np_resolution ?q else []) @ np_suffix ?q"
    by blast
  with qv have c4: "first_name ?q = ''Example.Show.S02EP005.The.Return.1080p.mkv''"
    by simp
  from c1 c2 pv c3 c4 show ?thesis by simp
qed

section \<open>The resolution tag\<close>

lemma is_p_not_digit: "is_p c \<Longrightarrow> \<not> is_digit c"
  by (auto simp: is_p_def is_digit_def)

lemma is_k_not_digit: "is_k c \<Longrightarrow> \<not> is_digit c"
  by (auto simp: is_k_def is_digit_def)

lemma is_res_tag_cases:
  "is_res_tag m \<longleftrightarrow>
     (\<exists>a b c d e. m = [a, b, c, d, e] \<and> is_digit a \<and> is_digit b \<and> is_digit c \<and> is_digit d
         \<and> is_p e)
   \<or> (\<exists>a b c d. m = [a, b, c, d] \<and> is_digit a \<and> is_digit b \<and> is_digit c \<and> is_p d)
   \<or> (\<exists>a b. m = [a, b] \<and> (a = CHR ''2'' \<or> a = CHR ''4'') \<and> is_k b)"
  (is "?l \<longleftrightarrow> ?r")
proof
  assume ?l
  then have m: "match_res m = Some m" by (simp add: is_res_tag_def)
  show ?r
  proof (cases m)
    case Nil
    with m show ?thesis by (simp add: match_res_def)
  next
    case (Cons a m1)
    note c1 = Cons
    show ?thesis
    proof (cases m1)
      case Nil
      with m c1 show ?thesis by (simp add: match_res_def)
    next
      case (Cons b m2)
      note c2 = Cons
      show ?thesis
      proof (cases m2)
        case Nil
        with m c1 c2 show ?thesis by (auto simp: match_res_def split: if_splits)
      next
        case (Cons c m3)
        note c3 = Cons
        show ?thesis
        proof (cases m3)
          case Nil
          with m c1 c2 c3 show ?thesis by (auto simp: match_res_def split: if_splits)
        next
          case (Cons d m4)
          note c4 = Cons
          show ?thesis
          proof (cases m4)
            case Nil
            with m c1 c2 c3 c4 show ?thesis by (auto simp: match_res_def split: if_splits)
          next
            case (Cons e m5)
            with m c1 c2 c3 c4 show ?thesis by (auto simp: match_res_def split: if_splits)
          qed
        qed
      qed
    qed
  qed
next
  assume ?r
  then show ?l
    by (auto simp: is_res_tag_def match_res_def is_p_not_digit is_k_not_digit)
qed

lemma is_res_tag_append: "is_res_tag m \<Longrightarrow> match_res (m @ post) = Some m"
  unfolding is_res_tag_cases
  by (auto simp: match_res_def is_p_not_digit is_k_not_digit)


lemma match_res_SomeD:
  assumes "match_res s = Some m"
  shows "is_res_tag m \<and> (\<exists>post. s = m @ post)"
proof -
  from assms consider
      "5 \<le> length s" "list_all is_digit (take 4 s)" "is_p (s ! 4)" "m = take 5 s"
    | "4 \<le> length s" "list_all is_digit (take 3 s)" "is_p (s ! 3)" "m = take 4 s"
    | "2 \<le> length s" "s ! 0 = CHR ''2'' \<or> s ! 0 = CHR ''4''" "is_k (s ! 1)" "m = take 2 s"
    by (auto simp: match_res_def split: if_splits)
  then have "match_res m = Some m"
  proof cases
    case 1
    then show ?thesis by (simp add: match_res_def min_def)
  next
    case 2
    have "\<not> list_all is_digit (take 4 (take 4 s))"
    proof
      assume "list_all is_digit (take 4 (take 4 s))"
      with 2(1) have "is_digit (take 4 s ! 3)" by (simp add: list_all_length)
      with 2(3) is_p_not_digit [of "s ! 3"] show False by simp
    qed
    with 2 show ?thesis by (simp add: match_res_def min_def)
  next
    case 3
    then have "length (take 2 s) = 2" by simp
    with 3 show ?thesis by (simp add: match_res_def)
  qed
  moreover from assms have "\<exists>post. s = m @ post"
    by (auto simp: match_res_def split: if_splits intro: exI [of _ "drop 5 s"]
          exI [of _ "drop 4 s"] exI [of _ "drop 2 s"])
  ultimately show ?thesis by (simp add: is_res_tag_def)
qed

lemma res_search_SomeD:
  "res_search s = Some m \<Longrightarrow> is_res_tag m \<and> sublist m s"
proof (induction s)
  case Nil
  then show ?case by simp
next
  case (Cons c cs)
  show ?case
  proof (cases "match_res (c # cs)")
    case (Some m')
    with Cons.prems have "m' = m" by simp
    with Some match_res_SomeD [of "c # cs" m] show ?thesis
      by (auto simp: sublist_def intro: exI [of _ "[]"])
  next
    case None
    with Cons.prems have "res_search cs = Some m" by simp
    with Cons.IH show ?thesis by (auto simp: sublist_Cons_right)
  qed
qed

lemma py_lower_id: "\<forall>c \<in> set m. \<not> is_upper c \<Longrightarrow> py_lower m = m"
  by (induction m) (auto simp: py_lower_def py_lower_char_def)

lemma decide_parts_resolution:
  "np_resolution (parts (decide env show_name info filename ds de)) = resolution filename"
  "np_suffix (parts (decide env show_name info filename ds de)) = path_suffix env filename"
  by (simp_all add: decide_def Let_def split: prod.splits)


text \<open>
  C8, as stated: the resolution tag of the file name is passed through unmodified. The
  tag \<open>4K\<close> of \<open>Sample.Anime.S02E04.4K.mkv\<close> comes out as \<open>4k\<close>, and
  \<open>4K\<close> is nowhere in the new name.
\<close>

theorem resolution_tag_counterexample:
  "res_search ''Sample.Anime.S02E04.4K.mkv'' = Some ''4K''
   \<and> first_name (parts (decide example_env ''Sample Anime'' sample_anime
                           ''Sample.Anime.S02E04.4K.mkv'' 2 4))
       = ''Sample.Anime.S01EP016.Sixteen.4k.mkv''
   \<and> \<not> sublist ''4K'' ''Sample.Anime.S01EP016.Sixteen.4k.mkv''"
  by code_simp

lemma match_res_Nil: "match_res [] = None"
  by (simp add: match_res_def)

lemma res_search_leftmost:
  assumes "match_res rest = Some m"
    and "\<forall>i < length pre. match_res (drop i (pre @ rest)) = None"
  shows "res_search (pre @ rest) = Some m"
  using assms(2)
proof (induction pre)
  case Nil
  from assms(1) have "rest \<noteq> []" by (auto simp: match_res_Nil)
  then obtain c cs where "rest = c # cs" by (cases rest) auto
  with assms(1) show ?case by simp
next
  case (Cons a pre)
  from Cons.prems have "match_res (drop 0 ((a # pre) @ rest)) = None" by blast
  then have here: "match_res (a # pre @ rest) = None" by simp
  have "\<forall>i < length pre. match_res (drop i (pre @ rest)) = None"
  proof (intro allI impI)
    fix i assume "i < length pre"
    then have "Suc i < length (a # pre)" by simp
    with Cons.prems have "match_res (drop (Suc i) ((a # pre) @ rest)) = None" by blast
    then show "match_res (drop i (pre @ rest)) = None" by simp
  qed
  with Cons.IH have "res_search (pre @ rest) = Some m" by simp
  with here show ?case by simp
qed

lemma no_match_before:
  assumes "\<forall>i \<in> set (match_positions s). n \<le> i"
    and "i < n" and "i < length s"
  shows "match_res (drop i s) = None"
proof (rule ccontr)
  assume "match_res (drop i s) \<noteq> None"
  with assms(3) have "i \<in> set (match_positions s)"
    by (simp add: match_positions_def)
  with assms(1,2) show False by auto
qed

lemma only_tag_found:
  assumes "filename = pre @ tag @ post"
    and "is_res_tag tag"
    and "\<forall>i \<in> set (match_positions filename). length pre \<le> i \<and> i < length pre + length tag"
  shows "res_search filename = Some tag"
proof -
  have m: "match_res (tag @ post) = Some tag"
    using assms(2) by (rule is_res_tag_append)
  have "\<forall>i < length pre. match_res (drop i (pre @ tag @ post)) = None"
  proof (intro allI impI)
    fix i assume i: "i < length pre"
    from assms(3) have "\<forall>j \<in> set (match_positions filename). length pre \<le> j" by blast
    from no_match_before [OF this i] i assms(1)
    show "match_res (drop i (pre @ tag @ post)) = None" by simp
  qed
  from res_search_leftmost [OF m this] assms(1) show ?thesis by simp
qed

lemma first_name_resolution_place:
  "np_resolution p \<noteq> [] \<Longrightarrow>
     first_name p = np_show p @ ''.'' @ episode_code (np_season p) (np_episode p)
       @ (if has_title p then ''.'' @ np_title p else [])
       @ ''.'' @ np_resolution p @ np_suffix p
   \<and> (\<forall>k. numbered_name p k = np_show p @ ''.'' @ episode_code (np_season p) (np_episode p)
       @ (if has_title p then ''.'' @ np_title p else [])
       @ ''_'' @ str_nat k @ ''.'' @ np_resolution p @ np_suffix p)"
  by (simp add: first_name_def numbered_name_def)


text \<open>
  C8, amended. When the resolution tag is the only text of the file name that the
  pattern (three or four digits and \<open>p\<close>, or \<open>2k\<close> or \<open>4k\<close>, in either case)
  matches, that is, when every match starts inside the tag, the tag is passed through in
  lower case, so unmodified when it has no capital letter. It is the segment right before
  the suffix, after the title segment of the first name and after the counter of a
  numbered name.
\<close>

theorem resolution_tag_lowercased:
  assumes "filename = pre @ tag @ post"
    and "is_res_tag tag"
    and "\<forall>i \<in> set (match_positions filename). length pre \<le> i \<and> i < length pre + length tag"
    and "p = parts (decide env show_name info filename ds de)"
  shows "res_search filename = Some tag
       \<and> resolution filename = py_lower tag
       \<and> np_resolution p = py_lower tag
       \<and> first_name p = np_show p @ ''.'' @ episode_code (np_season p) (np_episode p)
            @ (if has_title p then ''.'' @ np_title p else [])
            @ ''.'' @ py_lower tag @ path_suffix env filename
       \<and> (\<forall>k. numbered_name p k = np_show p @ ''.'' @ episode_code (np_season p) (np_episode p)
            @ (if has_title p then ''.'' @ np_title p else [])
            @ ''_'' @ str_nat k @ ''.'' @ py_lower tag @ path_suffix env filename)
       \<and> ((\<forall>c \<in> set tag. \<not> is_upper c) \<longrightarrow> py_lower tag = tag)"
proof -
  have found: "res_search filename = Some tag"
    using assms(1-3) by (rule only_tag_found)
  then have res: "resolution filename = py_lower tag"
    by (simp add: resolution_def)
  with assms(4) have np: "np_resolution p = py_lower tag" and sfx: "np_suffix p = path_suffix env filename"
    by (simp_all add: decide_parts_resolution)
  from assms(2) have "tag \<noteq> []" by (auto simp: is_res_tag_cases)
  with np have "np_resolution p \<noteq> []" by (simp add: py_lower_def)
  from first_name_resolution_place [OF this] np sfx
  have names: "first_name p = np_show p @ ''.'' @ episode_code (np_season p) (np_episode p)
            @ (if has_title p then ''.'' @ np_title p else [])
            @ ''.'' @ py_lower tag @ path_suffix env filename"
    "\<forall>k. numbered_name p k = np_show p @ ''.'' @ episode_code (np_season p) (np_episode p)
            @ (if has_title p then ''.'' @ np_title p else [])
            @ ''_'' @ str_nat k @ ''.'' @ py_lower tag @ path_suffix env filename"
    by simp_all
  have "(\<forall>c \<in> set tag. \<not> is_upper c) \<longrightarrow> py_lower tag = tag"
    using py_lower_id by blast
  with found res np names show ?thesis by blast
qed

theorem resolution_tag_lowercased_witness:
  "res_search ''Example.Show.S02E05.1080p.mkv'' = Some ''1080p''
   \<and> resolution ''Example.Show.S02E05.1080p.mkv'' = ''1080p''
   \<and> first_name (parts (decide example_env ''Example Show'' example_show
                           ''Example.Show.S02E05.1080p.mkv'' 2 5))
       = ''Example.Show.S02EP005.The.Return.1080p.mkv''"
proof -
  let ?f = "''Example.Show.S02E05.1080p.mkv''"
  let ?p = "parts (decide example_env ''Example Show'' example_show ?f 2 5)"
  have split: "?f = ''Example.Show.S02E05.'' @ ''1080p'' @ ''.mkv''"
    by simp
  have tag: "is_res_tag ''1080p''"
    by code_simp
  have only: "\<forall>i \<in> set (match_positions ?f).
                length ''Example.Show.S02E05.'' \<le> i
              \<and> i < length ''Example.Show.S02E05.'' + length ''1080p''"
    by code_simp
  have low: "\<forall>c \<in> set ''1080p''. \<not> is_upper c"
    by code_simp
  have pe: "?p = \<lparr>np_show = ''Example.Show'', np_season = 2, np_episode = 5,
                 np_title = ''The.Return'', np_resolution = ''1080p'', np_suffix = ''.mkv''\<rparr>"
    by code_simp
  have ht: "has_title ?p" and code: "episode_code 2 5 = ''S02EP005''"
    and sfx: "path_suffix example_env ?f = ''.mkv''"
    by code_simp+
  note inst = resolution_tag_lowercased [OF split tag only refl,
      of example_env "''Example Show''" example_show 2 5]
  from inst low have l: "py_lower ''1080p'' = ''1080p''"
    by blast
  from inst have "res_search ?f = Some ''1080p''"
    and "resolution ?f = py_lower ''1080p''"
    and "first_name ?p = np_show ?p @ ''.'' @ episode_code (np_season ?p) (np_episode ?p)
            @ (if has_title ?p then ''.'' @ np_title ?p else [])
            @ ''.'' @ py_lower ''1080p'' @ path_suffix example_env ?f"
    by blast+
  with l ht sfx show ?thesis
    by (simp add: pe code)
qed

end
